theory Spec2Isabelle
  imports Main
begin

section \<open>The AWS Batch step command of metaflow: \<open>batch_cli.py\<close>\<close>

text \<open>
  The development embeds the \<open>step\<close> command of
  \<open>metaflow/plugins/aws/batch/batch_cli.py\<close>: the splitting of the
  \<open>--input-paths\<close> argument into environment variables, the lookup of the retry
  policy, the construction of the environment, the sleep before a retry, and the
  \<open>try\<close>/\<open>except\<close>/\<open>finally\<close> structure around \<open>launch_job\<close> and \<open>wait\<close>.

  A Python \<open>str\<close> is a sequence of code points, here a list of natural numbers:
  \<open>len\<close> and slicing count code points, not bytes. The names and formats that
  the source writes as literals are \<open>string\<close>s, and \<open>ustr\<close> turns one into a
  \<open>str\<close>.

  Python exceptions are values. \<open>sys.exit(c)\<close> raises \<open>SystemExit c\<close>;
  \<open>SystemExit\<close> and \<open>KeyboardInterrupt\<close> are the two exceptions of the model that are
  not instances of \<open>Exception\<close>, which matters for \<open>except Exception\<close>.
\<close>

subsection \<open>Exceptions\<close>

datatype pyexn =
    BatchKilledException
  | TypeError
  | ValueError
  | KeyError
  | AttributeError
  | OverflowError
  | OtherException string
  | KeyboardInterrupt
  | SystemExit int

fun is_Exception :: "pyexn \<Rightarrow> bool" where
  "is_Exception KeyboardInterrupt = False"
| "is_Exception (SystemExit c) = False"
| "is_Exception e = True"

subsection \<open>Strings\<close>

type_synonym pystr = "nat list"

definition ustr :: "string \<Rightarrow> pystr" where
  "ustr s = map of_char s"

text \<open>The number of bytes of a code point and of a \<open>str\<close> in UTF-8.\<close>

definition utf8_bytes :: "nat \<Rightarrow> nat" where
  "utf8_bytes cp = (if cp < 128 then 1 else if cp < 2048 then 2 else if cp < 65536 then 3 else 4)"

definition utf8_size :: "pystr \<Rightarrow> nat" where
  "utf8_size s = sum_list (map utf8_bytes s)"

subsection \<open>Decimal formatting: \<open>"...%d..." % v\<close>\<close>

definition digit_char :: "nat \<Rightarrow> char" where
  "digit_char d = char_of (48 + d)"

fun string_of_nat :: "nat \<Rightarrow> string" where
  "string_of_nat n =
     (if n < 10 then [digit_char n]
      else string_of_nat (n div 10) @ [digit_char (n mod 10)])"

declare string_of_nat.simps [simp del]

definition string_of_int :: "int \<Rightarrow> string" where
  "string_of_int i =
     (if i < 0 then CHR ''-'' # string_of_nat (nat (- i)) else string_of_nat (nat i))"

text \<open>
  \<open>percent_d pre post v\<close> is \<open>(pre + "%d" + post) % v\<close> for a format with a single
  \<open>%d\<close>. The argument is a Python integer or \<open>None\<close>; for \<open>None\<close> the operator raises
  \<open>TypeError\<close> (\<open>%d format: a number is required, not NoneType\<close>).
\<close>

definition percent_d :: "string \<Rightarrow> string \<Rightarrow> int option \<Rightarrow> pyexn + string" where
  "percent_d pre post v =
     (case v of
        None \<Rightarrow> Inl TypeError
      | Some i \<Rightarrow> Inr (pre @ string_of_int i @ post))"

subsection \<open>Dictionaries in insertion order\<close>

text \<open>
  A Python \<open>dict\<close> keeps its keys in insertion order; storing under a key that is
  present replaces the value in place. \<open>dict_update d e\<close> is \<open>d.update(e)\<close>.
  The dictionaries of this file map the names of environment variables to their
  values.
\<close>

type_synonym pydict = "(string \<times> pystr) list"

fun dict_set :: "pydict \<Rightarrow> string \<Rightarrow> pystr \<Rightarrow> pydict" where
  "dict_set [] k v = [(k, v)]"
| "dict_set ((k', v') # d) k v =
     (if k' = k then (k', v) # d else (k', v') # dict_set d k v)"

fun dict_update :: "pydict \<Rightarrow> pydict \<Rightarrow> pydict" where
  "dict_update d [] = d"
| "dict_update d ((k, v) # e) = dict_update (dict_set d k v) e"

subsection \<open>Splitting \<open>--input-paths\<close> (lines 180 to 188)\<close>

definition max_size :: nat where
  "max_size = 30 * 1024"

text \<open>\<open>range(start, stop, step)\<close> for natural numbers; a zero step raises \<open>ValueError\<close>.\<close>

function range_from :: "nat \<Rightarrow> nat \<Rightarrow> nat \<Rightarrow> nat list" where
  "range_from i stop stp =
     (if stp = 0 \<or> stop \<le> i then [] else i # range_from (i + stp) stop stp)"
  by pat_completeness auto
termination
  by (relation "measure (\<lambda>(i, stop, stp). stop - i)") auto

declare range_from.simps [simp del]

definition py_range :: "nat \<Rightarrow> nat \<Rightarrow> nat \<Rightarrow> pyexn + nat list" where
  "py_range start stop stp =
     (if stp = 0 then Inl ValueError else Inr (range_from start stop stp))"

text \<open>
  \<open>s[i:j]\<close> for \<open>0 \<le> i \<le> j\<close>: both ends are clamped to the length of \<open>s\<close>, and
  the positions are positions of code points.
\<close>

definition slice :: "pystr \<Rightarrow> nat \<Rightarrow> nat \<Rightarrow> pystr" where
  "slice s i j = take (j - i) (drop i s)"

text \<open>
  The dictionary comprehension
  \<open>{"METAFLOW_INPUT_PATHS_%d" % (i // max_size): input_paths[i : i + max_size] for i in range(...)}\<close>:
  the entries are stored one after the other, in the order of the range.
\<close>

fun split_comprehension :: "pystr \<Rightarrow> nat list \<Rightarrow> pydict \<Rightarrow> pyexn + pydict" where
  "split_comprehension s [] d = Inr d"
| "split_comprehension s (i # is) d =
     (case percent_d ''METAFLOW_INPUT_PATHS_'' [] (Some (int (i div max_size))) of
        Inl e \<Rightarrow> Inl e
      | Inr k \<Rightarrow> split_comprehension s is (dict_set d k (slice s i (i + max_size))))"

text \<open>\<open>"".join("${%s}" % s for s in split_vars.keys())\<close>\<close>

definition join_placeholders :: "string list \<Rightarrow> string" where
  "join_placeholders ks = concat (map (\<lambda>k. ''${'' @ k @ ''}'') ks)"

text \<open>
  The encoder takes \<open>kwargs.get("input_paths")\<close> (\<open>None\<close> when the option was not
  given) and returns \<open>split_vars\<close> and the new value of \<open>kwargs["input_paths"]\<close>.
  An empty string and \<open>None\<close> are both falsy: \<open>split_vars\<close> stays \<open>None\<close> and the
  argument is not touched.
\<close>

definition encode_input_paths ::
  "pystr option \<Rightarrow> pyexn + (pydict option \<times> pystr option)" where
  "encode_input_paths input_paths =
     (case input_paths of
        None \<Rightarrow> Inr (None, None)
      | Some s \<Rightarrow>
          if s = [] then Inr (None, Some s)
          else
            (case py_range 0 (length s) max_size of
               Inl e \<Rightarrow> Inl e
             | Inr is \<Rightarrow>
                 (case split_comprehension s is [] of
                    Inl e \<Rightarrow> Inl e
                  | Inr split_vars \<Rightarrow>
                      Inr (Some split_vars,
                           Some (ustr (join_placeholders (map fst split_vars)))))))"

text \<open>The chunks of an encoding, in key order; \<open>split_vars = None\<close> has none.\<close>

definition chunks_of :: "pyexn + (pydict option \<times> pystr option) \<Rightarrow> pydict" where
  "chunks_of r =
     (case r of
        Inl e \<Rightarrow> []
      | Inr (split_vars, arg) \<Rightarrow> (case split_vars of None \<Rightarrow> [] | Some d \<Rightarrow> d))"

definition expression_of :: "pyexn + (pydict option \<times> pystr option) \<Rightarrow> pystr option" where
  "expression_of r = (case r of Inl e \<Rightarrow> None | Inr (split_vars, arg) \<Rightarrow> arg)"

definition chunk_key :: "nat \<Rightarrow> string" where
  "chunk_key j = ''METAFLOW_INPUT_PATHS_'' @ string_of_nat j"

subsection \<open>Decorator attributes and \<open>int(...)\<close>\<close>

text \<open>
  A decorator has a name and a dictionary of attributes. An attribute value is an
  integer, a string (attributes given on the command line arrive as strings), a
  dictionary of strings (the \<open>vars\<close> of the environment decorator), or \<open>None\<close>.
  An attribute string is a \<open>string\<close>: code points below 256.
\<close>

datatype attr_val = AInt int | AStr string | ADict pydict | ANone

record deco =
  deco_name :: string
  deco_attributes :: "(string \<times> attr_val) list"

text \<open>\<open>attributes.get(k, default)\<close>\<close>

definition attr_get :: "(string \<times> attr_val) list \<Rightarrow> string \<Rightarrow> attr_val \<Rightarrow> attr_val" where
  "attr_get attrs k dflt = (case map_of attrs k of None \<Rightarrow> dflt | Some v \<Rightarrow> v)"

text \<open>
  \<open>int(v)\<close>: an integer is returned as it is; a string is read as a decimal literal
  (whitespace around it, an optional sign, digits with single underscores between
  them) and raises \<open>ValueError\<close> otherwise; a dictionary and \<open>None\<close> raise
  \<open>TypeError\<close>. The whitespace below 256 is \<open>\t \n \v \f \r\<close>, the separators
  \<open>0x1C\<close> to \<open>0x1F\<close>, the space, \<open>0x85\<close> and \<open>0xA0\<close>. A literal of more than
  \<open>max_str_digits\<close> digits (4300, the default of CPython) raises \<open>ValueError\<close>;
  underscores and the sign do not count.
\<close>

definition is_space :: "char \<Rightarrow> bool" where
  "is_space c =
     (c \<in> set [CHR 0x20, CHR 0x09, CHR 0x0A, CHR 0x0B, CHR 0x0C, CHR 0x0D,
                CHR 0x1C, CHR 0x1D, CHR 0x1E, CHR 0x1F, CHR 0x85, CHR 0xA0])"

definition max_str_digits :: nat where
  "max_str_digits = 4300"

definition strip :: "string \<Rightarrow> string" where
  "strip s = rev (dropWhile is_space (rev (dropWhile is_space s)))"

definition digit_val :: "char \<Rightarrow> nat option" where
  "digit_val c =
     (let n = (of_char c :: nat) in if 48 \<le> n \<and> n \<le> 57 then Some (n - 48) else None)"

fun parse_digits :: "nat \<Rightarrow> string \<Rightarrow> nat option" where
  "parse_digits acc [] = Some acc"
| "parse_digits acc [c] =
     (case digit_val c of None \<Rightarrow> None | Some v \<Rightarrow> Some (acc * 10 + v))"
| "parse_digits acc (c # d # ds) =
     (if c = CHR ''_'' then
        (case digit_val d of None \<Rightarrow> None | Some v \<Rightarrow> parse_digits (acc * 10 + v) ds)
      else
        (case digit_val c of None \<Rightarrow> None | Some v \<Rightarrow> parse_digits (acc * 10 + v) (d # ds)))"

definition parse_unsigned :: "string \<Rightarrow> nat option" where
  "parse_unsigned s =
     (case s of
        [] \<Rightarrow> None
      | c # cs \<Rightarrow>
          if max_str_digits < length (filter (\<lambda>x. x \<noteq> CHR ''_'') s) then None
          else (case digit_val c of None \<Rightarrow> None | Some v \<Rightarrow> parse_digits v cs))"

definition int_of_string :: "string \<Rightarrow> pyexn + int" where
  "int_of_string s =
     (case strip s of
        [] \<Rightarrow> Inl ValueError
      | c # cs \<Rightarrow>
          if c = CHR ''-'' then
            (case parse_unsigned cs of None \<Rightarrow> Inl ValueError | Some n \<Rightarrow> Inr (- int n))
          else if c = CHR ''+'' then
            (case parse_unsigned cs of None \<Rightarrow> Inl ValueError | Some n \<Rightarrow> Inr (int n))
          else
            (case parse_unsigned (c # cs) of None \<Rightarrow> Inl ValueError | Some n \<Rightarrow> Inr (int n)))"

fun py_int :: "attr_val \<Rightarrow> pyexn + int" where
  "py_int (AInt n) = Inr n"
| "py_int (AStr s) = int_of_string s"
| "py_int (ADict d) = Inl TypeError"
| "py_int ANone = Inl TypeError"

subsection \<open>The inputs and the effects of \<open>step\<close>\<close>

text \<open>
  Of \<open>kwargs\<close> the command reads \<open>input_paths\<close> and \<open>retry_count\<close> (a \<open>click\<close> option
  with the integer default \<open>0\<close>, so always an integer). Of the graph node it reads
  the list of decorators. \<open>launch_job\<close> and \<open>wait\<close> belong to \<open>Batch\<close>, which is not
  part of this file: how each call ends is an input of the model, \<open>None\<close> for a
  normal return and \<open>Some e\<close> when the call raises \<open>e\<close>. Whatever leaves \<open>wait\<close>,
  for instance an exception raised by the \<open>echo\<close> callback handed to it, is such an
  \<open>e\<close>.
\<close>

record kwargs =
  kw_input_paths :: "pystr option"
  kw_retry_count :: int

record world =
  launch_job_result :: "pyexn option"
  wait_result :: "pyexn option"

text \<open>
  What \<open>launch_job\<close> receives, as far as this file computes it: the environment, the
  attempt \<open>str(retry_count)\<close>, and the value of \<open>kwargs["input_paths"]\<close> from which
  \<open>util.dict_to_cli_options\<close> builds the step command line.
\<close>

record launch_request =
  lr_env :: attr_val
  lr_attempt :: string
  lr_input_paths :: "pystr option"

datatype event =
    EchoAlways string
  | Sleep int
  | LaunchJob launch_request
  | Print pyexn
  | Wait
  | PrintExc
  | SyncLocalMetadata

datatype outcome = Returned | Raised pyexn

subsection \<open>Retry information (lines 197 to 203)\<close>

definition retry_minutes :: "deco list \<Rightarrow> pyexn + int option" where
  "retry_minutes decorators =
     (case filter (\<lambda>d. deco_name d = ''retry'') decorators of
        [] \<Rightarrow> Inr None
      | d # ds \<Rightarrow>
          (case py_int (attr_get (deco_attributes d) ''minutes_between_retries'' (AInt 1)) of
             Inl e \<Rightarrow> Inl e
           | Inr m \<Rightarrow> Inr (Some m)))"

subsection \<open>The environment (lines 220 to 228)\<close>

text \<open>\<open>attributes["vars"]\<close> raises \<open>KeyError\<close> when the key is missing.\<close>

definition declared_env :: "deco list \<Rightarrow> pyexn + attr_val" where
  "declared_env decorators =
     (case filter (\<lambda>d. deco_name d = ''environment'') decorators of
        [] \<Rightarrow> Inr (ADict [])
      | d # ds \<Rightarrow>
          (case map_of (deco_attributes d) ''vars'' of
             None \<Rightarrow> Inl KeyError
           | Some v \<Rightarrow> Inr v))"

text \<open>
  \<open>if split_vars: env.update(split_vars)\<close>. \<open>None\<close> and the empty dictionary are
  falsy. Only a dictionary has \<open>update\<close>; on another value the attribute lookup
  raises \<open>AttributeError\<close>.
\<close>

definition add_split_vars :: "attr_val \<Rightarrow> pydict option \<Rightarrow> pyexn + attr_val" where
  "add_split_vars env split_vars =
     (case split_vars of
        None \<Rightarrow> Inr env
      | Some sv \<Rightarrow>
          if sv = [] then Inr env
          else (case env of ADict d \<Rightarrow> Inr (ADict (dict_update d sv)) | _ \<Rightarrow> Inl AttributeError))"

definition build_env :: "deco list \<Rightarrow> pydict option \<Rightarrow> pyexn + attr_val" where
  "build_env decorators split_vars =
     (case declared_env decorators of
        Inl e \<Rightarrow> Inl e
      | Inr env \<Rightarrow> add_split_vars env split_vars)"

subsection \<open>The sleep before a retry (lines 230 to 234)\<close>

text \<open>
  The message is formatted first, so \<open>minutes_between_retries = None\<close> raises
  \<open>TypeError\<close> before anything is printed. \<open>time.sleep\<close> turns the seconds into
  nanoseconds in a signed 64-bit integer and raises \<open>OverflowError\<close> when they do
  not fit, which is beyond \<open>max_sleep_seconds\<close> on either side; then it raises
  \<open>ValueError\<close> for a negative length.
\<close>

definition max_sleep_seconds :: int where
  "max_sleep_seconds = 9223372036"

definition backoff :: "int \<Rightarrow> int option \<Rightarrow> pyexn option \<times> event list" where
  "backoff retry_count minutes_between_retries =
     (if retry_count \<noteq> 0 then
        (case percent_d ''Sleeping '' '' minutes before the next AWS Batch retry''
                minutes_between_retries of
           Inl e \<Rightarrow> (Some e, [])
         | Inr msg \<Rightarrow>
             (case minutes_between_retries of
                None \<Rightarrow> (Some TypeError, [EchoAlways msg])
              | Some m \<Rightarrow>
                  if m * 60 < - max_sleep_seconds \<or> max_sleep_seconds < m * 60 then
                    (Some OverflowError, [EchoAlways msg])
                  else if m * 60 < 0 then (Some ValueError, [EchoAlways msg])
                  else (None, [EchoAlways msg, Sleep (m * 60)])))
      else (None, []))"

subsection \<open>Everything before the submission (lines 164 to 245)\<close>

text \<open>
  The four parts above, in the order of the source. The other statements of these
  lines (the entry point and the command line, the task attributes, the task
  datastore and its log locations) call into the context object and return; their
  values go to \<open>launch_job\<close> and \<open>wait\<close> unchanged and no property below reads them.
\<close>

definition prepare_launch ::
  "kwargs \<Rightarrow> deco list \<Rightarrow> (pyexn \<times> event list) + (launch_request \<times> event list)" where
  "prepare_launch kw decorators =
     (case encode_input_paths (kw_input_paths kw) of
        Inl e \<Rightarrow> Inl (e, [])
      | Inr (split_vars, arg) \<Rightarrow>
          (case retry_minutes decorators of
             Inl e \<Rightarrow> Inl (e, [])
           | Inr minutes_between_retries \<Rightarrow>
               (case build_env decorators split_vars of
                  Inl e \<Rightarrow> Inl (e, [])
                | Inr env \<Rightarrow>
                    (case backoff (kw_retry_count kw) minutes_between_retries of
                       (Some e, tr) \<Rightarrow> Inl (e, tr)
                     | (None, tr) \<Rightarrow>
                         Inr (\<lparr>lr_env = env,
                               lr_attempt = string_of_int (kw_retry_count kw),
                               lr_input_paths = arg\<rparr>, tr)))))"

subsection \<open>Submission and monitoring (lines 247 to 295)\<close>

text \<open>
  The first \<open>try\<close>: \<open>except Exception\<close> prints the exception, synchronises the
  metadata and exits; an exception that is not an \<open>Exception\<close> passes through.
  \<open>METAFLOW_EXIT_DISALLOW_RETRY\<close> is imported from \<open>metaflow.exception\<close>; its value
  is a parameter.

  The command guards two calls with \<open>try\<close>, \<open>launch_job\<close> and \<open>wait\<close>, and those
  two may raise in the model. The other calls to imported code (\<open>print\<close>,
  \<open>echo_always\<close>, \<open>traceback.print_exc\<close>, the \<open>FlowDataStore\<close> lookup and
  \<open>sync_local_metadata_from_datastore\<close>) are effects that return; the trace
  records the ones the properties below speak about.
\<close>

definition launch_block :: "int \<Rightarrow> world \<Rightarrow> launch_request \<Rightarrow> outcome \<times> event list" where
  "launch_block METAFLOW_EXIT_DISALLOW_RETRY w req =
     (case launch_job_result w of
        None \<Rightarrow> (Returned, [LaunchJob req])
      | Some e \<Rightarrow>
          if is_Exception e then
            (Raised (SystemExit METAFLOW_EXIT_DISALLOW_RETRY),
             [LaunchJob req, Print e, SyncLocalMetadata])
          else (Raised e, [LaunchJob req]))"

text \<open>
  The second \<open>try\<close>: the handler of \<open>BatchKilledException\<close> prints the traceback
  and exits; the \<open>finally\<close> clause runs after the body or the handler, however they
  end, and the outcome they ended with stands.
\<close>

definition wait_block :: "int \<Rightarrow> world \<Rightarrow> outcome \<times> event list" where
  "wait_block METAFLOW_EXIT_DISALLOW_RETRY w =
     (let (r, tr) =
            (case wait_result w of
               None \<Rightarrow> (Returned, [Wait])
             | Some e \<Rightarrow>
                 if e = BatchKilledException then
                   (Raised (SystemExit METAFLOW_EXIT_DISALLOW_RETRY), [Wait, PrintExc])
                 else (Raised e, [Wait]))
      in (r, tr @ [SyncLocalMetadata]))"

definition launch_and_monitor :: "int \<Rightarrow> world \<Rightarrow> launch_request \<Rightarrow> outcome \<times> event list" where
  "launch_and_monitor METAFLOW_EXIT_DISALLOW_RETRY w req =
     (case launch_block METAFLOW_EXIT_DISALLOW_RETRY w req of
        (Returned, tr) \<Rightarrow>
          (let (r, tr') = wait_block METAFLOW_EXIT_DISALLOW_RETRY w in (r, tr @ tr'))
      | (Raised e, tr) \<Rightarrow> (Raised e, tr))"

subsection \<open>The command\<close>

definition step :: "int \<Rightarrow> kwargs \<Rightarrow> deco list \<Rightarrow> world \<Rightarrow> outcome \<times> event list" where
  "step METAFLOW_EXIT_DISALLOW_RETRY kw decorators w =
     (case prepare_launch kw decorators of
        Inl (e, tr) \<Rightarrow> (Raised e, tr)
      | Inr (req, tr) \<Rightarrow>
          (let (r, tr') = launch_and_monitor METAFLOW_EXIT_DISALLOW_RETRY w req
           in (r, tr @ tr')))"

text \<open>Counting the effects of a run.\<close>

fun is_launch :: "event \<Rightarrow> bool" where
  "is_launch (LaunchJob req) = True"
| "is_launch ev = False"

definition syncs :: "event list \<Rightarrow> nat" where
  "syncs tr = length (filter (\<lambda>ev. ev = SyncLocalMetadata) tr)"

definition launches :: "event list \<Rightarrow> nat" where
  "launches tr = length (filter is_launch tr)"

section \<open>Properties of the encoder\<close>

lemma length_ustr [simp]: "length (ustr s) = length s"
  by (simp add: ustr_def)

lemma digit_char_inj:
  assumes "a < 10" "b < 10" "digit_char a = digit_char b"
  shows "a = b"
proof -
  from assms(3) have "(of_char (digit_char a) :: nat) = of_char (digit_char b)" by simp
  with assms(1,2) show ?thesis by (simp add: digit_char_def)
qed

lemma string_of_nat_nonempty: "string_of_nat n \<noteq> []" "[] \<noteq> string_of_nat n"
  by (subst string_of_nat.simps, simp)+

lemma string_of_nat_inj: "string_of_nat m = string_of_nat n \<Longrightarrow> m = n"
proof (induction m arbitrary: n rule: string_of_nat.induct)
  case (1 m)
  show ?case
  proof (cases "m < 10")
    case True
    note m = this
    show ?thesis
    proof (cases "n < 10")
      case True
      with m "1.prems" show ?thesis
        by (simp add: string_of_nat.simps[of m] string_of_nat.simps[of n] digit_char_inj)
    next
      case False
      with m "1.prems" show ?thesis
        by (simp add: string_of_nat.simps[of m] string_of_nat.simps[of n]
            string_of_nat_nonempty)
    qed
  next
    case False
    note m = this
    show ?thesis
    proof (cases "n < 10")
      case True
      with m "1.prems" show ?thesis
        by (simp add: string_of_nat.simps[of m] string_of_nat.simps[of n]
            string_of_nat_nonempty)
    next
      case False
      with m "1.prems" have e1: "string_of_nat (m div 10) = string_of_nat (n div 10)"
        and e2: "digit_char (m mod 10) = digit_char (n mod 10)"
        by (simp_all add: string_of_nat.simps[of m] string_of_nat.simps[of n])
      from "1.IH"[OF m e1] have d: "m div 10 = n div 10" .
      from e2 have r: "m mod 10 = n mod 10" by (intro digit_char_inj) simp_all
      from d r show ?thesis by (metis div_mult_mod_eq)
    qed
  qed
qed

lemma chunk_key_inj: "chunk_key a = chunk_key b \<Longrightarrow> a = b"
  by (simp add: chunk_key_def string_of_nat_inj)

lemma percent_d_key:
  "percent_d ''METAFLOW_INPUT_PATHS_'' [] (Some (int j)) = Inr (chunk_key j)"
  by (simp add: percent_d_def string_of_int_def chunk_key_def)

lemma dict_set_fresh: "k \<notin> fst ` set d \<Longrightarrow> dict_set d k v = d @ [(k, v)]"
  by (induction d) auto

lemma map_of_dict_set: "map_of (dict_set d k v) = (map_of d)(k \<mapsto> v)"
  by (induction d) (auto simp: fun_eq_iff)

lemma keys_dict_set: "fst ` set (dict_set d k v) = insert k (fst ` set d)"
proof (induction d)
  case Nil
  show ?case by simp
next
  case (Cons a d)
  obtain k' v' where a: "a = (k', v')" by (cases a)
  show ?case using Cons.IH by (cases "k' = k") (simp_all add: a insert_commute)
qed

lemma map_of_dict_update: "map_of (dict_update d e) = map_of d ++ map_of (rev e)"
proof (induction e arbitrary: d)
  case Nil
  show ?case by simp
next
  case (Cons kv e)
  obtain k v where kv: "kv = (k, v)" by (cases kv)
  show ?case
    by (simp add: kv Cons.IH map_of_dict_set map_add_def fun_eq_iff split: option.splits)
qed

lemma keys_dict_update: "fst ` set (dict_update d e) = fst ` set d \<union> fst ` set e"
proof (induction e arbitrary: d)
  case Nil
  show ?case by simp
next
  case (Cons kv e)
  obtain k v where kv: "kv = (k, v)" by (cases kv)
  show ?case by (simp add: kv Cons.IH keys_dict_set)
qed

lemma upt_0_Suc: "[0..<Suc k] = 0 # map Suc [0..<k]"
  by (subst upt_rec) (simp add: map_Suc_upt del: upt_Suc)

lemma div_add_step: "0 < c \<Longrightarrow> (x + c) div c = Suc (x div (c::nat))"
  using div_add_self2[of c x] by simp

lemma ceil_div_step:
  fixes n i c :: nat
  assumes "0 < c" "i < n"
  shows "(n - i + c - 1) div c = Suc ((n - (i + c) + c - 1) div c)"
proof (cases "i + c \<le> n")
  case True
  have "n - i + c - 1 = (n - (i + c) + c - 1) + c" using True assms by arith
  then have "(n - i + c - 1) div c = ((n - (i + c) + c - 1) + c) div c" by (rule arg_cong)
  also have "\<dots> = Suc ((n - (i + c) + c - 1) div c)" by (rule div_add_step[OF assms(1)])
  finally show ?thesis .
next
  case False
  have r: "(n - (i + c) + c - 1) div c = 0" using False assms by simp
  have "n - i + c - 1 = (n - i - 1) + c" using assms by arith
  then have "(n - i + c - 1) div c = ((n - i - 1) + c) div c" by (rule arg_cong)
  also have "\<dots> = Suc ((n - i - 1) div c)" by (rule div_add_step[OF assms(1)])
  also have "(n - i - 1) div c = 0" using False assms by simp
  finally show ?thesis by (simp only: r)
qed

lemma range_from_closed:
  "0 < c \<Longrightarrow> range_from i n c = map (\<lambda>j. i + j * c) [0..<(n - i + c - 1) div c]"
proof (induction i n c rule: range_from.induct)
  case (1 i n c)
  show ?case
  proof (cases "n \<le> i")
    case True
    then have "n - i + c - 1 < c" using "1.prems" by arith
    then have "(n - i + c - 1) div c = 0" by simp
    moreover have "range_from i n c = []" using True by (subst range_from.simps) simp
    ultimately show ?thesis by simp
  next
    case False
    then have lt: "i < n" by simp
    have ih: "range_from (i + c) n c = map (\<lambda>j. i + c + j * c) [0..<(n - (i + c) + c - 1) div c]"
      using "1.IH" "1.prems" False by simp
    have k: "(n - i + c - 1) div c = Suc ((n - (i + c) + c - 1) div c)"
      by (rule ceil_div_step[OF "1.prems" lt])
    have "range_from i n c = i # range_from (i + c) n c"
      using "1.prems" False by (subst range_from.simps) simp
    also have "\<dots> = map (\<lambda>j. i + j * c) [0..<(n - i + c - 1) div c]"
      unfolding k ih upt_0_Suc by (simp add: comp_def add.assoc)
    finally show ?thesis .
  qed
qed

lemma split_comprehension_closed:
  assumes "\<forall>i\<in>set is. chunk_key (i div max_size) \<notin> fst ` set d"
    and "distinct (map (\<lambda>i. i div max_size) is)"
  shows "split_comprehension s is d =
           Inr (d @ map (\<lambda>i. (chunk_key (i div max_size), slice s i (i + max_size))) is)"
  using assms
proof (induction "is" arbitrary: d)
  case Nil
  show ?case by simp
next
  case (Cons i "is")
  let ?k = "chunk_key (i div max_size)"
  let ?d = "dict_set d ?k (slice s i (i + max_size))"
  have fresh: "?k \<notin> fst ` set d" using Cons.prems(1) by simp
  have d': "?d = d @ [(?k, slice s i (i + max_size))]" by (rule dict_set_fresh[OF fresh])
  have a: "\<forall>j\<in>set is. chunk_key (j div max_size) \<notin> fst ` set ?d"
  proof
    fix j assume j: "j \<in> set is"
    have "i div max_size \<notin> (\<lambda>i. i div max_size) ` set is" using Cons.prems(2) by simp
    then have "j div max_size \<noteq> i div max_size" using j by (metis imageI)
    then have "chunk_key (j div max_size) \<noteq> ?k" using chunk_key_inj by blast
    moreover have "chunk_key (j div max_size) \<notin> fst ` set d" using Cons.prems(1) j by simp
    ultimately show "chunk_key (j div max_size) \<notin> fst ` set ?d" by (simp add: keys_dict_set)
  qed
  have b: "distinct (map (\<lambda>i. i div max_size) is)" using Cons.prems(2) by simp
  have "split_comprehension s (i # is) d = split_comprehension s is ?d"
    by (simp add: percent_d_key)
  also have "\<dots> = Inr (?d @ map (\<lambda>i. (chunk_key (i div max_size), slice s i (i + max_size))) is)"
    by (rule Cons.IH[OF a b])
  finally show ?case by (simp add: d')
qed

lemma max_size_pos: "0 < max_size"
  by (simp add: max_size_def)


lemma encode_closed:
  assumes "s \<noteq> []"
  shows "encode_input_paths (Some s) =
           Inr (Some (map (\<lambda>j. (chunk_key j, take max_size (drop (j * max_size) s)))
                      [0..<(length s + max_size - 1) div max_size]),
                Some (ustr (join_placeholders
                       (map chunk_key [0..<(length s + max_size - 1) div max_size]))))"
proof -
  define k where "k = (length s + max_size - 1) div max_size"
  define js where "js = map (\<lambda>j. j * max_size) [0..<k]"
  have r: "range_from 0 (length s) max_size = js"
    using range_from_closed[OF max_size_pos, of 0 "length s"] by (simp add: js_def k_def)
  have inj: "distinct (map (\<lambda>i. i div max_size) js)"
    using max_size_pos by (simp add: js_def distinct_map comp_def inj_on_def)
  have c: "split_comprehension s js [] =
      Inr ([] @ map (\<lambda>i. (chunk_key (i div max_size), slice s i (i + max_size))) js)"
    by (rule split_comprehension_closed[OF _ inj]) simp
  have m: "map (\<lambda>i. (chunk_key (i div max_size), slice s i (i + max_size))) js =
           map (\<lambda>j. (chunk_key j, take max_size (drop (j * max_size) s))) [0..<k]"
    using max_size_pos by (simp add: js_def comp_def slice_def)
  have p: "py_range 0 (length s) max_size = Inr js"
    using max_size_pos by (simp add: py_range_def r)
  have "encode_input_paths (Some s) =
          Inr (Some (map (\<lambda>j. (chunk_key j, take max_size (drop (j * max_size) s))) [0..<k]),
               Some (ustr (join_placeholders (map chunk_key [0..<k]))))"
    unfolding encode_input_paths_def
    using assms by (simp add: p c m comp_def)
  then show ?thesis unfolding k_def .
qed

lemma concat_chunks:
  "0 < c \<Longrightarrow> concat (map (\<lambda>j. take c (drop (j * c) s)) [0..<(length s + c - 1) div c]) = s"
proof (induction "length s" arbitrary: s rule: less_induct)
  case less
  show ?case
  proof (cases "s = []")
    case True
    then show ?thesis using less.prems by simp
  next
    case False
    then have lt: "0 < length s" by simp
    define k' where "k' = (length (drop c s) + c - 1) div c"
    have k: "(length s + c - 1) div c = Suc k'"
      using ceil_div_step[OF less.prems lt] by (simp add: k'_def)
    have ih: "concat (map (\<lambda>j. take c (drop (j * c) (drop c s))) [0..<k']) = drop c s"
      unfolding k'_def using less.hyps[of "drop c s"] less.prems lt by simp
    have "concat (map (\<lambda>j. take c (drop (j * c) s)) [0..<Suc k']) =
          take c s @ concat (map (\<lambda>j. take c (drop (j * c) (drop c s))) [0..<k'])"
      unfolding upt_0_Suc by (simp add: comp_def ac_simps)
    also have "\<dots> = s" unfolding ih by simp
    finally show ?thesis unfolding k .
  qed
qed

lemma chunks_closed:
  "chunks_of (encode_input_paths (Some s)) =
     map (\<lambda>j. (chunk_key j, take max_size (drop (j * max_size) s)))
       [0..<(length s + max_size - 1) div max_size]"
proof (cases "s = []")
  case True
  have "(max_size - 1) div max_size = 0" using max_size_pos by simp
  then show ?thesis using True by (simp add: encode_input_paths_def chunks_of_def)
next
  case False
  show ?thesis by (simp add: encode_closed[OF False] chunks_of_def)
qed

lemma ceil_div_bound:
  fixes n c j :: nat
  assumes "0 < c" "j < (n + c - 1) div c"
  shows "j * c < n"
proof -
  from assms(2) have "Suc j \<le> (n + c - 1) div c" by simp
  then have "Suc j * c \<le> n + c - 1" using assms(1) by (simp add: less_eq_div_iff_mult_less_eq)
  then show ?thesis using assms(1) by simp
qed

lemma digit_char_0: "digit_char 0 = CHR ''0''"
  unfolding digit_char_def by code_simp

lemma digit_char_1: "digit_char (Suc 0) = CHR ''1''"
  unfolding digit_char_def by code_simp

lemma chunk_key_0: "chunk_key 0 = ''METAFLOW_INPUT_PATHS_0''"
  by (simp add: chunk_key_def string_of_nat.simps[of 0] digit_char_0)

lemma chunk_key_1: "chunk_key (Suc 0) = ''METAFLOW_INPUT_PATHS_1''"
  by (simp add: chunk_key_def string_of_nat.simps[of "Suc 0"] digit_char_1)

lemma chunk_sizes:
  assumes "j < (length s + max_size - 1) div max_size"
  shows "length (take max_size (drop (j * max_size) s)) =
           (if Suc j < (length s + max_size - 1) div max_size then max_size
            else length s - j * max_size)"
    and "0 < length (take max_size (drop (j * max_size) s))"
    and "length (take max_size (drop (j * max_size) s)) \<le> max_size"
proof -
  have lt: "j * max_size < length s" by (rule ceil_div_bound[OF max_size_pos assms])
  show "0 < length (take max_size (drop (j * max_size) s))"
    using lt max_size_pos by simp
  show "length (take max_size (drop (j * max_size) s)) \<le> max_size" by simp
  show "length (take max_size (drop (j * max_size) s)) =
           (if Suc j < (length s + max_size - 1) div max_size then max_size
            else length s - j * max_size)"
  proof (cases "Suc j < (length s + max_size - 1) div max_size")
    case True
    have "Suc j * max_size < length s" by (rule ceil_div_bound[OF max_size_pos True])
    then have "max_size \<le> length s - j * max_size" by simp
    then show ?thesis using True by simp
  next
    case False
    then have "(length s + max_size - 1) div max_size < Suc (Suc j)" by simp
    then have "(length s + max_size - 1) < Suc (Suc j) * max_size"
      by (rule iffD1[OF div_less_iff_less_mult[OF max_size_pos]])
    then have "length s - j * max_size \<le> max_size" by simp
    then show ?thesis using False by simp
  qed
qed

section \<open>The claims about the encoder\<close>

lemma utf8_size_ascii:
  assumes "\<forall>cp\<in>set s. cp < 128"
  shows "utf8_size s = length s"
  using assms by (induction s) (simp_all add: utf8_size_def utf8_bytes_def)

lemma utf8_size_replicate: "utf8_size (replicate n cp) = n * utf8_bytes cp"
  by (induction n) (simp_all add: utf8_size_def)

text \<open>
  Claim C3 measures the value and the chunks in bytes. The source measures them
  with \<open>len\<close> and slices, in code points, and the two differ as soon as a code
  point takes more than one byte. The value of 22500 times \<open>U+00E9\<close> has 45000
  bytes in UTF-8 and 22500 code points: it gives one chunk, not two, and the
  chunk has 45000 bytes, more than the ceiling of 30720.
\<close>

theorem input_paths_bytes_counterexample:
  "utf8_size (replicate 22500 233) = 45000
   \<and> (45000 + max_size - 1) div max_size = 2
   \<and> length (chunks_of (encode_input_paths (Some (replicate 22500 233)))) = 1
   \<and> utf8_size (snd (chunks_of (encode_input_paths (Some (replicate 22500 233))) ! 0)) = 45000
   \<and> max_size < 45000"
proof -
  have k: "(length (replicate 22500 (233::nat)) + max_size - 1) div max_size = Suc 0"
    by (simp add: max_size_def)
  have c: "chunks_of (encode_input_paths (Some (replicate 22500 233))) =
             [(chunk_key 0, replicate 22500 233)]"
    unfolding chunks_closed k by (simp add: max_size_def)
  have u: "utf8_size (replicate 22500 233) = 45000"
    by (simp add: utf8_size_replicate utf8_bytes_def)
  have d: "(45000 + max_size - 1) div max_size = 2" by (simp add: max_size_def)
  have m: "max_size < 45000" by (simp add: max_size_def)
  show ?thesis unfolding c using u d m by simp
qed

text \<open>
  Claim C3 as amended, with every size counted in code points, as \<open>len\<close> counts.
  For every string \<open>s\<close>, with the chunk size \<open>max_size = 30720\<close>, the encoder
  produces \<open>ceil(len(s) / max_size)\<close> chunks, none for the empty string; the keys
  are \<open>METAFLOW_INPUT_PATHS_\<close> followed by the index \<open>0, 1, 2, ...\<close> in decimal,
  in this order; every chunk but the last has \<open>max_size\<close> code points and every
  chunk is non-empty and at most \<open>max_size\<close> long; the values concatenated in key
  order are \<open>s\<close>. A value of 45000 code points gives two chunks of 30720 and
  14280 code points and the expression
  \<open>${METAFLOW_INPUT_PATHS_0}${METAFLOW_INPUT_PATHS_1}\<close>. When the value is ASCII,
  the value and every chunk have as many bytes as code points, and all of this
  holds in bytes.
\<close>

theorem input_paths_chunks:
  "max_size = 30720
   \<and> length (chunks_of (encode_input_paths (Some s))) = (length s + max_size - 1) div max_size
   \<and> (s = [] \<longrightarrow> chunks_of (encode_input_paths (Some s)) = [])
   \<and> map fst (chunks_of (encode_input_paths (Some s))) =
       map (\<lambda>j. ''METAFLOW_INPUT_PATHS_'' @ string_of_nat j)
         [0..<length (chunks_of (encode_input_paths (Some s)))]
   \<and> (\<forall>j. Suc j < length (chunks_of (encode_input_paths (Some s))) \<longrightarrow>
          length (snd (chunks_of (encode_input_paths (Some s)) ! j)) = max_size)
   \<and> (\<forall>j. j < length (chunks_of (encode_input_paths (Some s))) \<longrightarrow>
          0 < length (snd (chunks_of (encode_input_paths (Some s)) ! j)) \<and>
          length (snd (chunks_of (encode_input_paths (Some s)) ! j)) \<le> max_size)
   \<and> concat (map snd (chunks_of (encode_input_paths (Some s)))) = s
   \<and> (length s = 45000 \<longrightarrow>
         map (\<lambda>kv. length (snd kv)) (chunks_of (encode_input_paths (Some s))) = [30720, 14280] \<and>
         expression_of (encode_input_paths (Some s)) =
           Some (ustr ''${METAFLOW_INPUT_PATHS_0}${METAFLOW_INPUT_PATHS_1}''))
   \<and> ((\<forall>cp\<in>set s. cp < 128) \<longrightarrow>
         utf8_size s = length s \<and>
         (\<forall>j. j < length (chunks_of (encode_input_paths (Some s))) \<longrightarrow>
            utf8_size (snd (chunks_of (encode_input_paths (Some s)) ! j)) =
            length (snd (chunks_of (encode_input_paths (Some s)) ! j))))"
proof -
  define k where "k = (length s + max_size - 1) div max_size"
  define cs where "cs = chunks_of (encode_input_paths (Some s))"
  have cl: "cs = map (\<lambda>j. (chunk_key j, take max_size (drop (j * max_size) s))) [0..<k]"
    unfolding cs_def k_def by (rule chunks_closed)
  have len: "length cs = k" by (simp add: cl)
  have c1: "max_size = 30720" by (simp add: max_size_def)
  have c3: "s = [] \<longrightarrow> cs = []"
    by (simp add: cs_def encode_input_paths_def chunks_of_def)
  have c4: "map fst cs = map (\<lambda>j. ''METAFLOW_INPUT_PATHS_'' @ string_of_nat j) [0..<length cs]"
    unfolding len by (simp add: cl comp_def chunk_key_def)
  have c5: "\<forall>j. Suc j < length cs \<longrightarrow> length (snd (cs ! j)) = max_size"
  proof (intro allI impI)
    fix j assume a: "Suc j < length cs"
    then have j: "j < k" and sj: "Suc j < k" by (simp_all add: len)
    have "snd (cs ! j) = take max_size (drop (j * max_size) s)" using j by (simp add: cl)
    then show "length (snd (cs ! j)) = max_size"
      using chunk_sizes(1)[of j s] j sj unfolding k_def by simp
  qed
  have c6: "\<forall>j. j < length cs \<longrightarrow> 0 < length (snd (cs ! j)) \<and> length (snd (cs ! j)) \<le> max_size"
  proof (intro allI impI)
    fix j assume a: "j < length cs"
    then have j: "j < k" by (simp add: len)
    have e: "snd (cs ! j) = take max_size (drop (j * max_size) s)" using j by (simp add: cl)
    show "0 < length (snd (cs ! j)) \<and> length (snd (cs ! j)) \<le> max_size"
      unfolding e using chunk_sizes(2,3)[of j s] j unfolding k_def by blast
  qed
  have c7: "concat (map snd cs) = s"
    using concat_chunks[OF max_size_pos, of s] by (simp add: cl comp_def k_def)
  have c8: "length s = 45000 \<longrightarrow>
         map (\<lambda>kv. length (snd kv)) cs = [30720, 14280] \<and>
         expression_of (encode_input_paths (Some s)) =
           Some (ustr ''${METAFLOW_INPUT_PATHS_0}${METAFLOW_INPUT_PATHS_1}'')"
  proof
    assume n: "length s = 45000"
    then have ne: "s \<noteq> []" by auto
    have k2: "(length s + max_size - 1) div max_size = Suc (Suc 0)" by (simp add: n c1)
    have u: "[0..<Suc (Suc 0)] = [0, Suc 0]" by (simp add: upt_rec)
    have a: "map (\<lambda>kv. length (snd kv)) cs = [30720, 14280]"
      unfolding cl k_def k2 u by (simp add: n c1)
    have b: "expression_of (encode_input_paths (Some s)) =
           Some (ustr ''${METAFLOW_INPUT_PATHS_0}${METAFLOW_INPUT_PATHS_1}'')"
      unfolding encode_closed[OF ne] k2 u
      by (simp add: expression_of_def join_placeholders_def chunk_key_0 chunk_key_1)
    from a b show "map (\<lambda>kv. length (snd kv)) cs = [30720, 14280] \<and>
         expression_of (encode_input_paths (Some s)) =
           Some (ustr ''${METAFLOW_INPUT_PATHS_0}${METAFLOW_INPUT_PATHS_1}'')" ..
  qed
  have c9: "(\<forall>cp\<in>set s. cp < 128) \<longrightarrow>
         utf8_size s = length s \<and>
         (\<forall>j. j < length cs \<longrightarrow> utf8_size (snd (cs ! j)) = length (snd (cs ! j)))"
  proof (intro impI conjI allI)
    assume a: "\<forall>cp\<in>set s. cp < 128"
    show "utf8_size s = length s" by (rule utf8_size_ascii[OF a])
    fix j assume "j < length cs"
    then have j: "j < k" by (simp add: len)
    have e: "snd (cs ! j) = take max_size (drop (j * max_size) s)" using j by (simp add: cl)
    have "set (take max_size (drop (j * max_size) s)) \<subseteq> set s"
      by (meson set_take_subset set_drop_subset subset_trans)
    then have "\<forall>cp\<in>set (snd (cs ! j)). cp < 128" using a unfolding e by blast
    then show "utf8_size (snd (cs ! j)) = length (snd (cs ! j))" by (rule utf8_size_ascii)
  qed
  show ?thesis
    using c1 len c3 c4 c5 c6 c7 c8 c9 unfolding cs_def k_def by blast
qed

text \<open>The theorem at a value of 45000 times the letter \<open>a\<close>.\<close>

theorem input_paths_chunks_witness:
  "length (chunks_of (encode_input_paths (Some (replicate 45000 (97::nat))))) = 2
   \<and> length (snd (chunks_of (encode_input_paths (Some (replicate 45000 (97::nat)))) ! 0)) = 30720
   \<and> map (\<lambda>kv. length (snd kv)) (chunks_of (encode_input_paths (Some (replicate 45000 (97::nat)))))
       = [30720, 14280]
   \<and> concat (map snd (chunks_of (encode_input_paths (Some (replicate 45000 (97::nat))))))
       = replicate 45000 (97::nat)
   \<and> expression_of (encode_input_paths (Some (replicate 45000 (97::nat)))) =
       Some (ustr ''${METAFLOW_INPUT_PATHS_0}${METAFLOW_INPUT_PATHS_1}'')
   \<and> utf8_size (replicate 45000 (97::nat)) = 45000
   \<and> utf8_size (snd (chunks_of (encode_input_paths (Some (replicate 45000 (97::nat)))) ! 0))
       = 30720"
proof -
  define s where "s = replicate 45000 (97::nat)"
  have n: "length s = 45000" by (simp add: s_def)
  note t = input_paths_chunks[of s]
  from t have "length (chunks_of (encode_input_paths (Some s))) =
      (length s + max_size - 1) div max_size" by blast
  then have l: "length (chunks_of (encode_input_paths (Some s))) = 2"
    by (simp add: n max_size_def)
  have "Suc 0 < length (chunks_of (encode_input_paths (Some s)))" by (simp add: l)
  with t have z: "length (snd (chunks_of (encode_input_paths (Some s)) ! 0)) = 30720" by metis
  have a: "\<forall>cp\<in>set s. cp < 128" by (simp add: s_def)
  have "0 < length (chunks_of (encode_input_paths (Some s)))" by (simp add: l)
  with t a have "utf8_size (snd (chunks_of (encode_input_paths (Some s)) ! 0)) =
      length (snd (chunks_of (encode_input_paths (Some s)) ! 0))" by blast
  then have b: "utf8_size (snd (chunks_of (encode_input_paths (Some s)) ! 0)) = 30720"
    by (simp only: z)
  from t a have "utf8_size s = length s" by blast
  then have u: "utf8_size s = 45000" by (simp only: n)
  from t l n z b u show ?thesis unfolding s_def[symmetric] by blast
qed

text \<open>
  Claim C8. When the \<open>input_paths\<close> value is absent (\<open>None\<close>) or the empty string,
  the encoder produces no chunks (\<open>split_vars\<close> stays \<open>None\<close>) and leaves the
  parameter as it was: no expression is substituted, so what stands for the
  parameter is empty or absent.
\<close>

theorem empty_input_paths_unmodified:
  assumes "input_paths = None \<or> input_paths = Some []"
  shows "encode_input_paths input_paths = Inr (None, input_paths)
         \<and> chunks_of (encode_input_paths input_paths) = []
         \<and> expression_of (encode_input_paths input_paths) = input_paths
         \<and> (case expression_of (encode_input_paths input_paths) of
               None \<Rightarrow> True | Some e \<Rightarrow> e = [])"
  using assms by (auto simp: encode_input_paths_def chunks_of_def expression_of_def)

theorem empty_input_paths_unmodified_witness:
  "encode_input_paths None = Inr (None, None)
   \<and> encode_input_paths (Some []) = Inr (None, Some [])
   \<and> chunks_of (encode_input_paths (Some [])) = []
   \<and> expression_of (encode_input_paths (Some [])) = Some []"
proof -
  have a: "(None :: pystr option) = None \<or> (None :: pystr option) = Some []" by simp
  have b: "Some [] = (None :: pystr option) \<or> Some [] = Some ([] :: pystr)" by simp
  show ?thesis
    using empty_input_paths_unmodified[OF a] empty_input_paths_unmodified[OF b] by blast
qed

text \<open>
  Claim C9. The encoding is total: for every input, a string of any length and
  content or \<open>None\<close>, it returns a result and raises no exception. The model has
  the two places of the encoder where Python could raise, the \<open>range\<close> with its
  step and the \<open>%d\<close> formatting of the key, and neither does.
\<close>

theorem encode_input_paths_total:
  "\<exists>split_vars arg. encode_input_paths input_paths = Inr (split_vars, arg)"
proof (cases input_paths)
  case None
  then show ?thesis by (simp add: encode_input_paths_def)
next
  case (Some s)
  show ?thesis
  proof (cases "s = []")
    case True
    then show ?thesis using Some by (simp add: encode_input_paths_def)
  next
    case False
    show ?thesis unfolding Some encode_closed[OF False] by blast
  qed
qed

section \<open>Properties of the command\<close>

lemma backoff_events:
  assumes "backoff n m = (r, tr)"
  shows "\<forall>ev\<in>set tr. \<not> is_launch ev \<and> ev \<noteq> SyncLocalMetadata \<and> ev \<noteq> Wait \<and> ev \<noteq> PrintExc"
  using assms
  by (auto simp: backoff_def percent_d_def split: if_splits option.splits sum.splits)

lemma prepare_launch_events:
  assumes "prepare_launch kw decorators = Inr (req, tr)"
  shows "\<forall>ev\<in>set tr. \<not> is_launch ev \<and> ev \<noteq> SyncLocalMetadata \<and> ev \<noteq> Wait \<and> ev \<noteq> PrintExc"
proof -
  from assms obtain r where "backoff (kw_retry_count kw) r = (None, tr)"
    by (auto simp: prepare_launch_def split: sum.splits prod.splits option.splits)
  then show ?thesis by (rule backoff_events)
qed

lemma prepare_launch_failed_events:
  assumes "prepare_launch kw decorators = Inl (e, tr)"
  shows "\<forall>ev\<in>set tr. \<not> is_launch ev \<and> ev \<noteq> SyncLocalMetadata \<and> ev \<noteq> Wait \<and> ev \<noteq> PrintExc"
proof -
  from assms have "tr = [] \<or> (\<exists>r. backoff (kw_retry_count kw) r = (Some e, tr))"
    by (auto simp: prepare_launch_def split: sum.splits prod.splits option.splits)
  then show ?thesis using backoff_events by fastforce
qed

lemma prepare_launch_counts:
  assumes "prepare_launch kw decorators = Inr (req, tr)"
  shows "syncs tr = 0" and "launches tr = 0"
  using prepare_launch_events[OF assms] by (auto simp: syncs_def launches_def)

lemma syncs_append: "syncs (xs @ ys) = syncs xs + syncs ys"
  by (simp add: syncs_def)

lemma launches_append: "launches (xs @ ys) = launches xs + launches ys"
  by (simp add: launches_def)

lemma step_prepared:
  assumes "prepare_launch kw decorators = Inr (req, tr)"
  shows "step c kw decorators w =
           (fst (launch_and_monitor c w req), tr @ snd (launch_and_monitor c w req))"
  using assms by (simp add: step_def split: prod.splits)

lemma step_not_prepared:
  assumes "prepare_launch kw decorators = Inl (e, tr)"
  shows "step c kw decorators w = (Raised e, tr)"
  using assms by (simp add: step_def)

lemma run_submission_failure:
  assumes "launch_job_result w = Some e" "is_Exception e"
  shows "launch_and_monitor c w req =
           (Raised (SystemExit c), [LaunchJob req, Print e, SyncLocalMetadata])"
  using assms by (simp add: launch_and_monitor_def launch_block_def)

lemma run_submission_interrupted:
  assumes "launch_job_result w = Some e" "\<not> is_Exception e"
  shows "launch_and_monitor c w req = (Raised e, [LaunchJob req])"
  using assms by (simp add: launch_and_monitor_def launch_block_def)

lemma run_success:
  assumes "launch_job_result w = None" "wait_result w = None"
  shows "launch_and_monitor c w req = (Returned, [LaunchJob req, Wait, SyncLocalMetadata])"
  using assms by (simp add: launch_and_monitor_def launch_block_def wait_block_def)

lemma run_killed:
  assumes "launch_job_result w = None" "wait_result w = Some BatchKilledException"
  shows "launch_and_monitor c w req =
           (Raised (SystemExit c), [LaunchJob req, Wait, PrintExc, SyncLocalMetadata])"
  using assms by (simp add: launch_and_monitor_def launch_block_def wait_block_def)

lemma run_other_failure:
  assumes "launch_job_result w = None" "wait_result w = Some e" "e \<noteq> BatchKilledException"
  shows "launch_and_monitor c w req = (Raised e, [LaunchJob req, Wait, SyncLocalMetadata])"
  using assms by (simp add: launch_and_monitor_def launch_block_def wait_block_def)

lemma run_syncs_once:
  assumes "case launch_job_result w of None \<Rightarrow> True | Some e \<Rightarrow> is_Exception e"
  shows "syncs (snd (launch_and_monitor c w req)) = 1"
    and "last (snd (launch_and_monitor c w req)) = SyncLocalMetadata"
proof -
  consider (fail) e where "launch_job_result w = Some e" "is_Exception e"
    | (ok) "launch_job_result w = None" "wait_result w = None"
    | (killed) "launch_job_result w = None" "wait_result w = Some BatchKilledException"
    | (other) e where "launch_job_result w = None" "wait_result w = Some e"
        "e \<noteq> BatchKilledException"
    using assms by (cases "launch_job_result w"; cases "wait_result w") auto
  then have "syncs (snd (launch_and_monitor c w req)) = 1
             \<and> last (snd (launch_and_monitor c w req)) = SyncLocalMetadata"
  proof cases
    case fail
    then show ?thesis by (simp add: run_submission_failure syncs_def)
  next
    case ok
    then show ?thesis by (simp add: run_success syncs_def)
  next
    case killed
    then show ?thesis by (simp add: run_killed syncs_def)
  next
    case other
    then show ?thesis by (simp add: run_other_failure syncs_def)
  qed
  then show "syncs (snd (launch_and_monitor c w req)) = 1"
    and "last (snd (launch_and_monitor c w req)) = SyncLocalMetadata" by simp_all
qed

lemma run_nonempty: "snd (launch_and_monitor c w req) \<noteq> []"
  by (auto simp: launch_and_monitor_def launch_block_def wait_block_def
      split: option.splits if_splits prod.splits)

subsection \<open>Two concrete runs of the preparation\<close>

lemma string_of_nat_digit: "n < 10 \<Longrightarrow> string_of_nat n = [digit_char n]"
  by (subst string_of_nat.simps) simp

lemma digit_char_2: "digit_char 2 = CHR ''2''"
  unfolding digit_char_def by code_simp

lemma digit_char_3: "digit_char 3 = CHR ''3''"
  unfolding digit_char_def by code_simp

lemma string_of_int_small:
  "string_of_int 0 = ''0''" "string_of_int 2 = ''2''" "string_of_int 3 = ''3''"
  by (simp_all add: string_of_int_def string_of_nat_digit digit_char_0 digit_char_2 digit_char_3)

lemma prepare_first_attempt:
  "prepare_launch \<lparr>kw_input_paths = None, kw_retry_count = 0\<rparr> [] =
     Inr (\<lparr>lr_env = ADict [], lr_attempt = ''0'', lr_input_paths = None\<rparr>, [])"
  by (simp add: prepare_launch_def encode_input_paths_def retry_minutes_def build_env_def
      declared_env_def add_split_vars_def backoff_def string_of_int_small)

lemma int_of_string_3: "int_of_string ''3'' = Inr 3"
  by (simp add: int_of_string_def strip_def is_space_def parse_unsigned_def digit_val_def
      max_str_digits_def)

lemma encode_example:
  "encode_input_paths (Some (ustr ''s3://bucket/run/1'')) =
     Inr (Some [(''METAFLOW_INPUT_PATHS_0'', (ustr ''s3://bucket/run/1''))],
          Some (ustr ''${METAFLOW_INPUT_PATHS_0}''))"
proof -
  have k: "(length (ustr ''s3://bucket/run/1'') + max_size - 1) div max_size = Suc 0"
    by (simp add: max_size_def)
  have ne: "(ustr ''s3://bucket/run/1'') \<noteq> []" by (simp add: ustr_def)
  show ?thesis
    unfolding encode_closed[OF ne] k
    by (simp add: chunk_key_0 join_placeholders_def max_size_def)
qed

lemma prepare_second_retry:
  "prepare_launch \<lparr>kw_input_paths = Some (ustr ''s3://bucket/run/1''), kw_retry_count = 2\<rparr>
     [\<lparr>deco_name = ''retry'',
       deco_attributes = [(''times'', AStr ''3''), (''minutes_between_retries'', AStr ''3'')]\<rparr>,
      \<lparr>deco_name = ''environment'', deco_attributes = [(''vars'', ADict [(''A'', ustr ''1'')])]\<rparr>] =
     Inr (\<lparr>lr_env = ADict [(''A'', ustr ''1''), (''METAFLOW_INPUT_PATHS_0'', (ustr ''s3://bucket/run/1''))],
           lr_attempt = ''2'',
           lr_input_paths = Some (ustr ''${METAFLOW_INPUT_PATHS_0}'')\<rparr>,
          [EchoAlways ''Sleeping 3 minutes before the next AWS Batch retry'', Sleep 180])"
  by (simp add: prepare_launch_def encode_example retry_minutes_def attr_get_def
      int_of_string_3 build_env_def declared_env_def add_split_vars_def backoff_def
      percent_d_def string_of_int_small max_sleep_seconds_def)

section \<open>The claims about submission and monitoring\<close>

text \<open>
  Claim C1. Whenever the command reaches the submission, on every way out of it
  (the submission fails with an \<open>Exception\<close>; the task runs and \<open>wait\<close> returns;
  \<open>wait\<close> reports the external kill; \<open>wait\<close> raises anything else, such as an
  exception of the \<open>echo\<close> callback) the metadata synchronisation runs exactly
  once, and it is the last effect before the command exits or the failure
  propagates.
\<close>

theorem sync_exactly_once:
  assumes "prepare_launch kw decorators = Inr (req, tr)"
    and "case launch_job_result w of None \<Rightarrow> True | Some e \<Rightarrow> is_Exception e"
  shows "syncs (snd (step c kw decorators w)) = 1
         \<and> last (snd (step c kw decorators w)) = SyncLocalMetadata"
proof -
  have "syncs (snd (step c kw decorators w)) = 1"
    by (simp add: step_prepared[OF assms(1)] syncs_append prepare_launch_counts[OF assms(1)]
        run_syncs_once(1)[OF assms(2)])
  moreover have "last (snd (step c kw decorators w)) = SyncLocalMetadata"
    by (simp add: step_prepared[OF assms(1)] run_nonempty run_syncs_once(2)[OF assms(2)])
  ultimately show ?thesis ..
qed

text \<open>The four ways out, after a retry that slept for three minutes.\<close>

theorem sync_exactly_once_witness:
  "(let kw = \<lparr>kw_input_paths = Some (ustr ''s3://bucket/run/1''), kw_retry_count = 2\<rparr>;
        decorators =
          [\<lparr>deco_name = ''retry'',
            deco_attributes =
              [(''times'', AStr ''3''), (''minutes_between_retries'', AStr ''3'')]\<rparr>,
           \<lparr>deco_name = ''environment'',
            deco_attributes = [(''vars'', ADict [(''A'', ustr ''1'')])]\<rparr>]
    in syncs (snd (step 202 kw decorators
          \<lparr>launch_job_result = Some (OtherException ''rejected''), wait_result = None\<rparr>)) = 1
     \<and> syncs (snd (step 202 kw decorators
          \<lparr>launch_job_result = None, wait_result = None\<rparr>)) = 1
     \<and> syncs (snd (step 202 kw decorators
          \<lparr>launch_job_result = None, wait_result = Some BatchKilledException\<rparr>)) = 1
     \<and> syncs (snd (step 202 kw decorators
          \<lparr>launch_job_result = None, wait_result = Some (OtherException ''echo failed'')\<rparr>)) = 1)"
  unfolding Let_def
  using sync_exactly_once[OF prepare_second_retry, of
      "\<lparr>launch_job_result = Some (OtherException ''rejected''), wait_result = None\<rparr>" 202]
    sync_exactly_once[OF prepare_second_retry, of
      "\<lparr>launch_job_result = None, wait_result = None\<rparr>" 202]
    sync_exactly_once[OF prepare_second_retry, of
      "\<lparr>launch_job_result = None, wait_result = Some BatchKilledException\<rparr>" 202]
    sync_exactly_once[OF prepare_second_retry, of
      "\<lparr>launch_job_result = None, wait_result = Some (OtherException ''echo failed'')\<rparr>" 202]
  by simp

text \<open>
  Claim C4. When \<open>launch_job\<close> raises an error (an \<open>Exception\<close>), the command
  submits once and does not submit again, does not wait, prints the error, runs
  the metadata synchronisation once, and exits with
  \<open>METAFLOW_EXIT_DISALLOW_RETRY\<close>.
\<close>

theorem submission_failure_exits:
  assumes "prepare_launch kw decorators = Inr (req, tr)"
    and "launch_job_result w = Some e"
    and "is_Exception e"
  shows "step c kw decorators w =
           (Raised (SystemExit c), tr @ [LaunchJob req, Print e, SyncLocalMetadata])
         \<and> launches (snd (step c kw decorators w)) = 1
         \<and> syncs (snd (step c kw decorators w)) = 1
         \<and> Wait \<notin> set (snd (step c kw decorators w))"
proof -
  have s: "step c kw decorators w =
           (Raised (SystemExit c), tr @ [LaunchJob req, Print e, SyncLocalMetadata])"
    by (simp add: step_prepared[OF assms(1)] run_submission_failure[OF assms(2,3)])
  have "launches (snd (step c kw decorators w)) = 1"
    by (simp add: s launches_append prepare_launch_counts[OF assms(1)]) (simp add: launches_def)
  moreover have "syncs (snd (step c kw decorators w)) = 1"
    by (simp add: s syncs_append prepare_launch_counts[OF assms(1)]) (simp add: syncs_def)
  moreover have "Wait \<notin> set (snd (step c kw decorators w))"
    using prepare_launch_events[OF assms(1)] by (auto simp: s)
  ultimately show ?thesis using s by blast
qed

theorem submission_failure_exits_witness:
  "step 202 \<lparr>kw_input_paths = None, kw_retry_count = 0\<rparr> []
     \<lparr>launch_job_result = Some (OtherException ''rejected''), wait_result = None\<rparr> =
   (Raised (SystemExit 202),
    [LaunchJob \<lparr>lr_env = ADict [], lr_attempt = ''0'', lr_input_paths = None\<rparr>,
     Print (OtherException ''rejected''), SyncLocalMetadata])"
  using submission_failure_exits[OF prepare_first_attempt, of
      "\<lparr>launch_job_result = Some (OtherException ''rejected''), wait_result = None\<rparr>"
      "OtherException ''rejected''" 202]
  by simp

text \<open>
  Claim C5. When \<open>wait\<close> raises \<open>BatchKilledException\<close>, the command prints the
  traceback, runs the metadata synchronisation once, has submitted once and does
  not submit again, and exits with \<open>METAFLOW_EXIT_DISALLOW_RETRY\<close>.
\<close>

theorem killed_exits:
  assumes "prepare_launch kw decorators = Inr (req, tr)"
    and "launch_job_result w = None"
    and "wait_result w = Some BatchKilledException"
  shows "step c kw decorators w =
           (Raised (SystemExit c), tr @ [LaunchJob req, Wait, PrintExc, SyncLocalMetadata])
         \<and> launches (snd (step c kw decorators w)) = 1
         \<and> syncs (snd (step c kw decorators w)) = 1"
proof -
  have s: "step c kw decorators w =
           (Raised (SystemExit c), tr @ [LaunchJob req, Wait, PrintExc, SyncLocalMetadata])"
    by (simp add: step_prepared[OF assms(1)] run_killed[OF assms(2,3)])
  have "launches (snd (step c kw decorators w)) = 1"
    by (simp add: s launches_append prepare_launch_counts[OF assms(1)]) (simp add: launches_def)
  moreover have "syncs (snd (step c kw decorators w)) = 1"
    by (simp add: s syncs_append prepare_launch_counts[OF assms(1)]) (simp add: syncs_def)
  ultimately show ?thesis using s by blast
qed

theorem killed_exits_witness:
  "step 202 \<lparr>kw_input_paths = None, kw_retry_count = 0\<rparr> []
     \<lparr>launch_job_result = None, wait_result = Some BatchKilledException\<rparr> =
   (Raised (SystemExit 202),
    [LaunchJob \<lparr>lr_env = ADict [], lr_attempt = ''0'', lr_input_paths = None\<rparr>,
     Wait, PrintExc, SyncLocalMetadata])"
  using killed_exits[OF prepare_first_attempt, of
      "\<lparr>launch_job_result = None, wait_result = Some BatchKilledException\<rparr>" 202]
  by simp

text \<open>
  Claim C7. When \<open>wait\<close> raises anything but \<open>BatchKilledException\<close>, the command
  raises that same exception: no handler catches it, nothing is printed, and it is
  not turned into an exit. The metadata synchronisation runs once, after \<open>wait\<close>
  and before the exception leaves the command.
\<close>

theorem other_wait_failure_propagates:
  assumes "prepare_launch kw decorators = Inr (req, tr)"
    and "launch_job_result w = None"
    and "wait_result w = Some e"
    and "e \<noteq> BatchKilledException"
  shows "step c kw decorators w = (Raised e, tr @ [LaunchJob req, Wait, SyncLocalMetadata])
         \<and> syncs (snd (step c kw decorators w)) = 1
         \<and> PrintExc \<notin> set (snd (step c kw decorators w))"
proof -
  have s: "step c kw decorators w = (Raised e, tr @ [LaunchJob req, Wait, SyncLocalMetadata])"
    by (simp add: step_prepared[OF assms(1)] run_other_failure[OF assms(2,3,4)])
  have "syncs (snd (step c kw decorators w)) = 1"
    by (simp add: s syncs_append prepare_launch_counts[OF assms(1)]) (simp add: syncs_def)
  moreover have "PrintExc \<notin> set (snd (step c kw decorators w))"
    using prepare_launch_events[OF assms(1)] by (auto simp: s)
  ultimately show ?thesis using s by blast
qed

theorem other_wait_failure_propagates_witness:
  "step 202 \<lparr>kw_input_paths = None, kw_retry_count = 0\<rparr> []
     \<lparr>launch_job_result = None, wait_result = Some (OtherException ''echo failed'')\<rparr> =
   (Raised (OtherException ''echo failed''),
    [LaunchJob \<lparr>lr_env = ADict [], lr_attempt = ''0'', lr_input_paths = None\<rparr>,
     Wait, SyncLocalMetadata])"
  using other_wait_failure_propagates[OF prepare_first_attempt, of
      "\<lparr>launch_job_result = None, wait_result = Some (OtherException ''echo failed'')\<rparr>"
      "OtherException ''echo failed''" 202]
  by simp

text \<open>
  Claim C10. A run whose submission fails and a run whose task is killed exit with
  the same value, \<open>METAFLOW_EXIT_DISALLOW_RETRY\<close>: the outcome of the command does
  not tell the two apart.
\<close>

theorem disallow_retry_same_exit:
  assumes "prepare_launch kw decorators = Inr (req, tr)"
    and "prepare_launch kw' decorators' = Inr (req', tr')"
    and "launch_job_result w = Some e"
    and "is_Exception e"
    and "launch_job_result w' = None"
    and "wait_result w' = Some BatchKilledException"
  shows "fst (step c kw decorators w) = Raised (SystemExit c)
         \<and> fst (step c kw' decorators' w') = Raised (SystemExit c)
         \<and> fst (step c kw decorators w) = fst (step c kw' decorators' w')"
  by (simp add: step_prepared[OF assms(1)] step_prepared[OF assms(2)]
      run_submission_failure[OF assms(3,4)] run_killed[OF assms(5,6)])

theorem disallow_retry_same_exit_witness:
  "fst (step 202 \<lparr>kw_input_paths = None, kw_retry_count = 0\<rparr> []
          \<lparr>launch_job_result = Some (OtherException ''rejected''), wait_result = None\<rparr>) =
   fst (step 202 \<lparr>kw_input_paths = None, kw_retry_count = 0\<rparr> []
          \<lparr>launch_job_result = None, wait_result = Some BatchKilledException\<rparr>)
   \<and> fst (step 202 \<lparr>kw_input_paths = None, kw_retry_count = 0\<rparr> []
          \<lparr>launch_job_result = None, wait_result = Some BatchKilledException\<rparr>) =
     Raised (SystemExit 202)"
  using disallow_retry_same_exit[OF prepare_first_attempt prepare_first_attempt, of
      "\<lparr>launch_job_result = Some (OtherException ''rejected''), wait_result = None\<rparr>"
      "OtherException ''rejected''"
      "\<lparr>launch_job_result = None, wait_result = Some BatchKilledException\<rparr>" 202]
  by simp

section \<open>The claim about the environment\<close>

lemma run_launch_events:
  "LaunchJob r \<in> set (snd (launch_and_monitor c w req)) \<Longrightarrow> r = req"
  by (auto simp: launch_and_monitor_def launch_block_def wait_block_def
      split: option.splits if_splits prod.splits)

lemma step_launch_request:
  assumes "LaunchJob req \<in> set (snd (step c kw decorators w))"
  shows "\<exists>tr. prepare_launch kw decorators = Inr (req, tr)"
proof (cases "prepare_launch kw decorators")
  case (Inl a)
  obtain e tr where a: "a = (e, tr)" by (cases a)
  have "step c kw decorators w = (Raised e, tr)"
    using Inl a by (simp add: step_not_prepared)
  moreover have "\<forall>ev\<in>set tr. \<not> is_launch ev"
    using prepare_launch_failed_events[of kw decorators e tr] Inl a by simp
  ultimately show ?thesis using assms by auto
next
  case (Inr b)
  obtain req' tr where b: "b = (req', tr)" by (cases b)
  have p: "prepare_launch kw decorators = Inr (req', tr)" using Inr b by simp
  have "\<forall>ev\<in>set tr. \<not> is_launch ev" using prepare_launch_events[OF p] by simp
  then have "LaunchJob req \<notin> set tr" by auto
  then have "LaunchJob req \<in> set (snd (launch_and_monitor c w req'))"
    using assms by (simp add: step_prepared[OF p])
  then have "req = req'" by (rule run_launch_events)
  then show ?thesis using p by simp
qed

lemma chunks_distinct: "distinct (map fst (chunks_of (encode_input_paths input_paths)))"
proof (cases input_paths)
  case None
  then show ?thesis by (simp add: encode_input_paths_def chunks_of_def)
next
  case (Some s)
  have "inj_on chunk_key A" for A by (rule inj_onI) (rule chunk_key_inj)
  then show ?thesis unfolding Some chunks_closed by (simp add: comp_def distinct_map)
qed

lemma map_of_rev_distinct:
  assumes "distinct (map fst xs)"
  shows "map_of (rev xs) = map_of xs"
proof -
  have "distinct (map fst (rev xs))" using assms by (simp add: rev_map[symmetric])
  then show ?thesis using assms by (simp add: map_of_inject_set)
qed

lemma prepare_launch_env:
  assumes "prepare_launch kw decorators = Inr (req, tr)"
    and "declared_env decorators = Inr (ADict declared)"
  shows "lr_env req =
           ADict (dict_update declared (chunks_of (encode_input_paths (kw_input_paths kw))))"
  using assms
  by (auto simp: prepare_launch_def build_env_def add_split_vars_def chunks_of_def
      split: sum.splits prod.splits option.splits if_splits)

text \<open>
  Claim C6. The environment handed to \<open>launch_job\<close> is the declared environment
  of the step updated with the chunk variables: every declared key is still a
  key, the keys are the declared keys and the chunk keys, and a lookup gives the
  chunk value for a chunk key and the declared value for every other key.
\<close>

theorem declared_env_kept:
  assumes "LaunchJob req \<in> set (snd (step c kw decorators w))"
    and "declared_env decorators = Inr (ADict declared)"
  shows "\<exists>env. lr_env req = ADict env
           \<and> fst ` set declared \<subseteq> fst ` set env
           \<and> fst ` set env =
               fst ` set declared \<union>
               fst ` set (chunks_of (encode_input_paths (kw_input_paths kw)))
           \<and> map_of env =
               map_of declared ++ map_of (chunks_of (encode_input_paths (kw_input_paths kw)))"
proof -
  let ?chunks = "chunks_of (encode_input_paths (kw_input_paths kw))"
  from step_launch_request[OF assms(1)] obtain tr
    where p: "prepare_launch kw decorators = Inr (req, tr)" ..
  have e: "lr_env req = ADict (dict_update declared ?chunks)"
    by (rule prepare_launch_env[OF p assms(2)])
  have k: "fst ` set (dict_update declared ?chunks) = fst ` set declared \<union> fst ` set ?chunks"
    by (rule keys_dict_update)
  have m: "map_of (dict_update declared ?chunks) = map_of declared ++ map_of ?chunks"
    by (simp add: map_of_dict_update map_of_rev_distinct[OF chunks_distinct])
  show ?thesis using e k m by blast
qed

theorem declared_env_kept_witness:
  "(let kw = \<lparr>kw_input_paths = Some (ustr ''s3://bucket/run/1''), kw_retry_count = 2\<rparr>;
        decorators =
          [\<lparr>deco_name = ''retry'',
            deco_attributes =
              [(''times'', AStr ''3''), (''minutes_between_retries'', AStr ''3'')]\<rparr>,
           \<lparr>deco_name = ''environment'',
            deco_attributes = [(''vars'', ADict [(''A'', ustr ''1'')])]\<rparr>];
        w = \<lparr>launch_job_result = None, wait_result = None\<rparr>;
        req = \<lparr>lr_env = ADict [(''A'', ustr ''1''), (''METAFLOW_INPUT_PATHS_0'', (ustr ''s3://bucket/run/1''))],
               lr_attempt = ''2'',
               lr_input_paths = Some (ustr ''${METAFLOW_INPUT_PATHS_0}'')\<rparr>
    in LaunchJob req \<in> set (snd (step 202 kw decorators w))
       \<and> declared_env decorators = Inr (ADict [(''A'', ustr ''1'')])
       \<and> (\<exists>env. lr_env req = ADict env \<and> ''A'' \<in> fst ` set env \<and> map_of env ''A'' = Some (ustr ''1'')
              \<and> map_of env ''METAFLOW_INPUT_PATHS_0'' = Some (ustr ''s3://bucket/run/1'')))"
proof -
  let ?kw = "\<lparr>kw_input_paths = Some (ustr ''s3://bucket/run/1''), kw_retry_count = 2\<rparr>"
  let ?ds = "[\<lparr>deco_name = ''retry'',
            deco_attributes =
              [(''times'', AStr ''3''), (''minutes_between_retries'', AStr ''3'')]\<rparr>,
           \<lparr>deco_name = ''environment'',
            deco_attributes = [(''vars'', ADict [(''A'', ustr ''1'')])]\<rparr>]"
  let ?w = "\<lparr>launch_job_result = None, wait_result = None\<rparr>"
  let ?req = "\<lparr>lr_env = ADict [(''A'', ustr ''1''), (''METAFLOW_INPUT_PATHS_0'', (ustr ''s3://bucket/run/1''))],
               lr_attempt = ''2'',
               lr_input_paths = Some (ustr ''${METAFLOW_INPUT_PATHS_0}'')\<rparr>"
  have a: "LaunchJob ?req \<in> set (snd (step 202 ?kw ?ds ?w))"
    by (simp add: step_prepared[OF prepare_second_retry] run_success)
  have b: "declared_env ?ds = Inr (ADict [(''A'', ustr ''1'')])"
    by (simp add: declared_env_def)
  from declared_env_kept[OF a b] obtain env where
    env: "lr_env ?req = ADict env" "fst ` set [(''A'', ustr ''1'')] \<subseteq> fst ` set env"
    "map_of env = map_of [(''A'', ustr ''1'')] ++
        map_of (chunks_of (encode_input_paths (kw_input_paths ?kw)))"
    by blast
  have c: "chunks_of (encode_input_paths (kw_input_paths ?kw)) =
      [(''METAFLOW_INPUT_PATHS_0'', (ustr ''s3://bucket/run/1''))]"
    by (simp add: encode_example chunks_of_def)
  have "''A'' \<in> fst ` set env" using env(2) by auto
  moreover have "map_of env ''A'' = Some (ustr ''1'')" unfolding env(3) c by simp
  moreover have "map_of env ''METAFLOW_INPUT_PATHS_0'' = Some (ustr ''s3://bucket/run/1'')"
    unfolding env(3) c by simp
  ultimately show ?thesis unfolding Let_def using a b env(1) by blast
qed

section \<open>The sleep before a retry\<close>

lemma retry_minutes_default:
  assumes "filter (\<lambda>d. deco_name d = ''retry'') decorators = d # ds"
    and "map_of (deco_attributes d) ''minutes_between_retries'' = None"
  shows "retry_minutes decorators = Inr (Some 1)"
  using assms by (simp add: retry_minutes_def attr_get_def)

lemma retry_minutes_no_policy:
  assumes "filter (\<lambda>d. deco_name d = ''retry'') decorators = []"
  shows "retry_minutes decorators = Inr None"
  using assms by (simp add: retry_minutes_def)

text \<open>
  Whenever the command reaches the submission: on the first attempt it has not
  slept and has printed nothing; on a retry the step declares a retry policy with
  a delay of \<open>m \<ge> 0\<close> minutes that \<open>time.sleep\<close> accepts, and the command has
  printed the notice and then slept \<open>m * 60\<close> seconds, in this order and nothing
  else.
\<close>

theorem retry_backoff_with_policy:
  assumes "prepare_launch kw decorators = Inr (req, tr)"
  shows "(kw_retry_count kw = 0 \<longrightarrow> tr = [])
         \<and> (kw_retry_count kw \<noteq> 0 \<longrightarrow>
              (\<exists>m. retry_minutes decorators = Inr (Some m) \<and> 0 \<le> m \<and>
                   m * 60 \<le> max_sleep_seconds \<and>
                   tr = [EchoAlways (''Sleeping '' @ string_of_int m @
                                     '' minutes before the next AWS Batch retry''),
                         Sleep (m * 60)]))"
  using assms
  by (auto simp: prepare_launch_def backoff_def percent_d_def
      split: sum.splits prod.splits option.splits if_splits)

theorem retry_backoff_with_policy_witness:
  "(\<exists>req. prepare_launch \<lparr>kw_input_paths = Some (ustr ''s3://bucket/run/1''), kw_retry_count = 2\<rparr>
     [\<lparr>deco_name = ''retry'',
       deco_attributes = [(''times'', AStr ''3''), (''minutes_between_retries'', AStr ''3'')]\<rparr>,
      \<lparr>deco_name = ''environment'', deco_attributes = [(''vars'', ADict [(''A'', ustr ''1'')])]\<rparr>] =
     Inr (req, [EchoAlways ''Sleeping 3 minutes before the next AWS Batch retry'', Sleep 180]))
   \<and> (\<exists>m. retry_minutes
     [\<lparr>deco_name = ''retry'',
       deco_attributes = [(''times'', AStr ''3''), (''minutes_between_retries'', AStr ''3'')]\<rparr>,
      \<lparr>deco_name = ''environment'', deco_attributes = [(''vars'', ADict [(''A'', ustr ''1'')])]\<rparr>] =
       Inr (Some m) \<and> 0 \<le> m)"
  using retry_backoff_with_policy[OF prepare_second_retry] prepare_second_retry
  by auto

text \<open>
  Claim C2, at a retry (\<open>--retry-count 1\<close>) of a step without a retry decorator:
  \<open>minutes_between_retries\<close> is \<open>None\<close>, the formatting of the notice raises
  \<open>TypeError\<close>, and the command ends there: nothing is printed, there is no sleep
  of one minute, and nothing is submitted.
\<close>

theorem retry_without_policy_raises:
  "step c \<lparr>kw_input_paths = None, kw_retry_count = 1\<rparr> [] w = (Raised TypeError, [])"
  by (simp add: step_def prepare_launch_def encode_input_paths_def retry_minutes_def
      build_env_def declared_env_def add_split_vars_def backoff_def percent_d_def)

end
